theory Spec2Isabelle
  imports Complex_Main "HOL-Library.Word"
begin

section \<open>The audio-to-text relay of \<^verbatim>\<open>src/index.js\<close>\<close>

text \<open>
  The server keeps one process-wide \<^verbatim>\<open>Map\<close> from WebSocket objects to the pair of
  streams of that client, and registers, for every connection, handlers for the
  events of the socket, of the Google recognition stream and of the ffmpeg command.
  Node runs each handler to completion before the next one starts, so a handler is a
  function from the state before it to the state after it, and an execution of the
  server is a list of events.

  What a handler does to the outside world (console output, frames sent to the client,
  streams opened and destroyed, processes spawned and killed, and the calls on the
  \<^verbatim>\<open>Map\<close>) is appended, in program order, to the trace of the state.

  Left out: \<^verbatim>\<open>ws.clientId\<close>, which only prefixes the lines of log; the constant
  \<^verbatim>\<open>requestConfig\<close>; and the variables \<^verbatim>\<open>recognizeStream\<close> and \<^verbatim>\<open>ffmpegProcess\<close> of the
  connection closure: the first is read only where it is set (line 102), the second
  is never set, and the handlers look the streams up in the \<^verbatim>\<open>Map\<close> only.
\<close>

subsection \<open>Values\<close>

type_synonym ws = nat
  \<comment> \<open>the identity of a WebSocket object, the key of \<^verbatim>\<open>clientStreams\<close>\<close>

type_synonym handle = nat
  \<comment> \<open>the identity of a stream or command object created by the server\<close>

type_synonym byte = "8 word"

datatype readyState = CONNECTING | OPEN | CLOSING | CLOSED

text \<open>
  A number produced by \<^verbatim>\<open>JSON.parse\<close> is a double that is never NaN: a finite value
  (a real) or an infinity (\<^verbatim>\<open>1e999\<close>).
\<close>

datatype jsnumber = Finite real | Infinity

datatype json =
    JNull
  | JBool bool
  | JNumber jsnumber
  | JString string
  | JArray "json list"
  | JObject "(string \<times> json) list"

text \<open>
  \<^verbatim>\<open>value.type\<close> and \<^verbatim>\<open>value.data\<close> on a value other than \<^verbatim>\<open>null\<close>; \<open>None\<close> is
  \<^verbatim>\<open>undefined\<close>. The properties of an object made by \<^verbatim>\<open>JSON.parse\<close> are its own
  (the list holds each name once); booleans, numbers, strings and arrays have neither
  property. Reading a property of \<^verbatim>\<open>null\<close> throws; the handler below has that case.
\<close>

fun member :: "json \<Rightarrow> string \<Rightarrow> json option" where
  "member (JObject kvs) k = map_of kvs k"
| "member _ k = None"

text \<open>JavaScript's conversion to a boolean, as in \<^verbatim>\<open>a && b\<close> and \<^verbatim>\<open>if (a)\<close>.\<close>

fun truthy :: "json option \<Rightarrow> bool" where
  "truthy None = False"
| "truthy (Some JNull) = False"
| "truthy (Some (JBool b)) = b"
| "truthy (Some (JNumber (Finite x))) = (x \<noteq> 0)"
| "truthy (Some (JNumber Infinity)) = True"
| "truthy (Some (JString s)) = (s \<noteq> [])"
| "truthy (Some (JArray xs)) = True"
| "truthy (Some (JObject kvs)) = True"

text \<open>The payload of a \<^verbatim>\<open>data\<close> event of the recognition stream.\<close>

record alternative =
  transcript :: string

record result =
  alternatives :: "alternative list"
  isFinal :: bool

record recognizeData =
  results :: "result list"

text \<open>The object handed to \<^verbatim>\<open>JSON.stringify\<close> and \<^verbatim>\<open>ws.send\<close>.\<close>

datatype envelope =
    Transcript string bool    \<comment> \<open>\<^verbatim>\<open>{ transcript, isFinal }\<close>\<close>
  | ErrorNotice string        \<comment> \<open>\<^verbatim>\<open>{ error }\<close>\<close>

text \<open>
  The ffmpeg command of lines 245 to 263: its input stream, \<^verbatim>\<open>inputFormat\<close>,
  \<^verbatim>\<open>outputOptions\<close>, and the target and the \<^verbatim>\<open>end\<close> option of \<^verbatim>\<open>pipe\<close>.
\<close>

record ffmpegCommand =
  inputStream :: "byte list"
  inputFormat :: "string option"
  outputOptions :: "string list"
  pipeTarget :: handle
  pipeEnd :: bool

text \<open>One constructor for each \<^verbatim>\<open>console\<close> call, with the line of the call.\<close>

datatype logged =
    StartingRecognizeStream           \<comment> \<open>line 59\<close>
  | SpeechApiError string             \<comment> \<open>line 67\<close>
  | CannotSendTranscription           \<comment> \<open>line 87\<close>
  | RecognizeStreamEnded              \<comment> \<open>line 97\<close>
  | DestroyingRecognizeStream         \<comment> \<open>line 110\<close>
  | KillingFfmpeg                     \<comment> \<open>line 114\<close>
  | NoActiveStream                    \<comment> \<open>line 119\<close>
  | InvalidJson                       \<comment> \<open>line 135\<close>
  | NoStreamFound                     \<comment> \<open>line 145\<close>
  | FailedToGetStream                 \<comment> \<open>line 151\<close>
  | ReceivedAudioChunk nat            \<comment> \<open>line 160\<close>
  | FirstBytes "byte list"            \<comment> \<open>line 163\<close>
  | KillingPreviousFfmpeg             \<comment> \<open>line 174\<close>
  | AttemptingRawPcm                  \<comment> \<open>line 206\<close>
  | FfmpegStarted string              \<comment> \<open>line 254\<close>
  | FfmpegErrorMessage string         \<comment> \<open>line 256\<close>
  | FfmpegStderr string               \<comment> \<open>line 257\<close>
  | FfmpegFinished                    \<comment> \<open>line 259\<close>
  | ErrorProcessingChunk              \<comment> \<open>line 268\<close>
  | EndAudioSignal                    \<comment> \<open>line 271\<close>
  | UnknownMessageType "json option"  \<comment> \<open>line 280\<close>
  | ConnectionClosed                  \<comment> \<open>line 289\<close>
  | WebSocketError                    \<comment> \<open>line 301\<close>

datatype effect =
    Log ws logged
  | Send ws envelope                       \<comment> \<open>\<^verbatim>\<open>ws.send(JSON.stringify(...))\<close>\<close>
  | OpenRecognize ws handle                \<comment> \<open>\<^verbatim>\<open>speechClient.streamingRecognize(requestConfig)\<close>\<close>
  | DestroyRecognize ws handle             \<comment> \<open>\<^verbatim>\<open>recognizeStream.destroy()\<close>\<close>
  | SpawnFfmpeg ws handle ffmpegCommand    \<comment> \<open>\<^verbatim>\<open>ffmpeg(inputStream)...pipe(...)\<close>\<close>
  | KillFfmpeg ws handle                   \<comment> \<open>\<^verbatim>\<open>ffmpegProcess.kill("SIGKILL")\<close>\<close>
  | RegistrySet ws                         \<comment> \<open>\<^verbatim>\<open>clientStreams.set(ws, ...)\<close>\<close>
  | RegistryDelete ws                      \<comment> \<open>\<^verbatim>\<open>clientStreams.delete(ws)\<close>\<close>

subsection \<open>State\<close>

text \<open>The value stored in \<^verbatim>\<open>clientStreams\<close>; \<open>None\<close> is \<^verbatim>\<open>null\<close>.\<close>

record clientData =
  recognizeStream :: "handle option"
  ffmpegProcess :: "handle option"

text \<open>
  Besides the \<^verbatim>\<open>Map\<close>, the state holds what the libraries know and the handlers
  depend on or cause:
  \<^item> \<open>readyState\<close>, the state of each socket;
  \<^item> \<open>writable\<close>, the recognition streams whose \<^verbatim>\<open>writable\<close> flag is set: a stream is
    writable from its creation until it ends or is destroyed;
  \<^item> \<open>running\<close>, the ffmpeg commands that have a running process: fluent-ffmpeg
    starts the process some time after \<^verbatim>\<open>pipe\<close> and emits \<^verbatim>\<open>start\<close> then, and the process
    is gone when the command emits \<^verbatim>\<open>error\<close> or \<^verbatim>\<open>end\<close>. \<^verbatim>\<open>kill\<close> only sends a signal to
    the process, if the command has one by then; the exit is reported by the \<^verbatim>\<open>error\<close>
    event that follows.
\<close>

record state =
  clientStreams :: "ws \<rightharpoonup> clientData"
  readyState :: "ws \<Rightarrow> readyState"
  writable :: "handle set"
  running :: "handle set"
  nextHandle :: handle
  trace :: "effect list"

text \<open>
  The server after start-up: an empty map. Every connection identity stands for an
  accepted connection, whose socket is open until the library says otherwise.
\<close>

definition init :: state where
  "init = \<lparr>clientStreams = Map.empty, readyState = (\<lambda>w. OPEN), writable = {}, running = {},
           nextHandle = 0, trace = []\<rparr>"

definition emit :: "effect \<Rightarrow> state \<Rightarrow> state" where
  "emit e s = s\<lparr>trace := trace s @ [e]\<rparr>"

subsection \<open>Handlers\<close>

text \<open>\<^verbatim>\<open>startRecognitionStream\<close>, lines 58 to 103.\<close>

definition startRecognitionStream :: "ws \<Rightarrow> state \<Rightarrow> state" where
  "startRecognitionStream w s =
     (let s1 = emit (Log w StartingRecognizeStream) s;
          h = nextHandle s1;
          s2 = emit (OpenRecognize w h)
                 (s1\<lparr>nextHandle := Suc h, writable := insert h (writable s1)\<rparr>);
          s3 = emit (RegistrySet w) s2
      in s3\<lparr>clientStreams :=
              (clientStreams s3)(w \<mapsto> \<lparr>recognizeStream = Some h, ffmpegProcess = None\<rparr>)\<rparr>)"

text \<open>\<^verbatim>\<open>stopRecognitionStream\<close>, lines 106 to 121.\<close>

definition stopRecognitionStream :: "ws \<Rightarrow> state \<Rightarrow> state" where
  "stopRecognitionStream w s =
     (case clientStreams s w of
        Some clientData \<Rightarrow>
          (let s1 = (case recognizeStream clientData of
                       Some h \<Rightarrow> emit (DestroyRecognize w h)
                                  (emit (Log w DestroyingRecognizeStream)
                                     (s\<lparr>writable := writable s - {h}\<rparr>))
                     | None \<Rightarrow> s);
               s2 = (case ffmpegProcess clientData of
                       Some f \<Rightarrow> emit (KillFfmpeg w f) (emit (Log w KillingFfmpeg) s1)
                     | None \<Rightarrow> s1);
               s3 = emit (RegistryDelete w) s2
           in s3\<lparr>clientStreams := (clientStreams s3)(w := None)\<rparr>)
      | None \<Rightarrow> emit (Log w NoActiveStream) s)"

text \<open>The \<^verbatim>\<open>error\<close> handler of the recognition stream, lines 66 to 76.\<close>

definition on_recognize_error :: "ws \<Rightarrow> string \<Rightarrow> state \<Rightarrow> state" where
  "on_recognize_error w message s =
     (let s1 = stopRecognitionStream w (emit (Log w (SpeechApiError message)) s)
      in if readyState s1 w = OPEN
         then emit (Send w (ErrorNotice (''Google Speech API Error: '' @ message))) s1
         else s1)"

text \<open>
  The \<^verbatim>\<open>data\<close> handler of the recognition stream, lines 77 to 95:
  \<^verbatim>\<open>data.results[0]?.alternatives[0]\<close> is the first alternative of the first result,
  when both exist.
\<close>

definition on_recognize_data :: "ws \<Rightarrow> recognizeData \<Rightarrow> state \<Rightarrow> state" where
  "on_recognize_data w d s =
     (case results d of
        [] \<Rightarrow> s
      | r # rs \<Rightarrow>
          (case alternatives r of
             [] \<Rightarrow> s
           | a # as \<Rightarrow>
               if readyState s w = OPEN
               then emit (Send w (Transcript (transcript a) (isFinal r))) s
               else stopRecognitionStream w (emit (Log w CannotSendTranscription) s)))"

text \<open>The \<^verbatim>\<open>end\<close> handler of the recognition stream, lines 96 to 99.\<close>

definition on_recognize_end :: "ws \<Rightarrow> state \<Rightarrow> state" where
  "on_recognize_end w s = emit (Log w RecognizeStreamEnded) s"

text \<open>The \<^verbatim>\<open>start\<close>, \<^verbatim>\<open>error\<close> and \<^verbatim>\<open>end\<close> handlers of the ffmpeg command, lines 254 to 259.\<close>

definition on_ffmpeg_start :: "ws \<Rightarrow> string \<Rightarrow> state \<Rightarrow> state" where
  "on_ffmpeg_start w cmd s = emit (Log w (FfmpegStarted cmd)) s"

definition on_ffmpeg_error :: "ws \<Rightarrow> string \<Rightarrow> string \<Rightarrow> state \<Rightarrow> state" where
  "on_ffmpeg_error w message stderr s =
     emit (Log w (FfmpegStderr stderr)) (emit (Log w (FfmpegErrorMessage message)) s)"

definition on_ffmpeg_end :: "ws \<Rightarrow> state \<Rightarrow> state" where
  "on_ffmpeg_end w s = emit (Log w FfmpegFinished) s"

text \<open>
  The command built at lines 245 to 263 from the decoded chunk and the recognition
  stream of the client.
\<close>

definition ffmpegCommand_of :: "byte list \<Rightarrow> handle \<Rightarrow> ffmpegCommand" where
  "ffmpegCommand_of audioBuffer r =
     \<lparr>inputStream = audioBuffer,
      inputFormat = Some ''3gp'',
      outputOptions = [''-acodec pcm_s16le'', ''-ar 16000'', ''-ac 1'', ''-f s16le''],
      pipeTarget = r,
      pipeEnd = False\<rparr>"

text \<open>
  The \<^verbatim>\<open>audio_chunk\<close> branch of the message handler, lines 143 to 269.
  \<open>Buffer_from\<close> is Node's \<^verbatim>\<open>Buffer.from(value, "base64")\<close>, a parameter of the model:
  \<open>None\<close> when it throws, which the \<^verbatim>\<open>try\<close> of line 158 catches.

  The other call of the \<^verbatim>\<open>try\<close> that can throw is \<^verbatim>\<open>pipe\<close> (line 263): fluent-ffmpeg
  refuses a target that is not writable (\<^verbatim>\<open>Invalid output\<close>). By then the previous
  command has been killed and the new command object exists; the \<^verbatim>\<open>catch\<close> prints the
  error, nothing is spawned, and the entry keeps the command it held.
\<close>

definition audio_chunk :: "(json \<Rightarrow> byte list option) \<Rightarrow> ws \<Rightarrow> json \<Rightarrow> state \<Rightarrow> state" where
  "audio_chunk Buffer_from w payload s =
     (let s1 = (if (case clientStreams s w of
                      None \<Rightarrow> True
                    | Some c \<Rightarrow> recognizeStream c = None)
                then startRecognitionStream w (emit (Log w NoStreamFound) s)
                else s)
      in case clientStreams s1 w of
           None \<Rightarrow> emit (Log w FailedToGetStream) s1
         | Some clientData \<Rightarrow>
             (case recognizeStream clientData of
                None \<Rightarrow> emit (Log w FailedToGetStream) s1
              | Some r \<Rightarrow>
                  (case Buffer_from payload of
                     None \<Rightarrow> emit (Log w ErrorProcessingChunk) s1
                   | Some audioBuffer \<Rightarrow>
                       (let s2 = emit (Log w (FirstBytes (take 16 audioBuffer)))
                                   (emit (Log w (ReceivedAudioChunk (length audioBuffer))) s1);
                            s3 = (case ffmpegProcess clientData of
                                    Some f \<Rightarrow> emit (KillFfmpeg w f)
                                               (emit (Log w KillingPreviousFfmpeg) s2)
                                  | None \<Rightarrow> s2);
                            s4 = emit (Log w AttemptingRawPcm) s3;
                            f' = nextHandle s4;
                            s5 = s4\<lparr>nextHandle := Suc f'\<rparr>
                        in if r \<in> writable s5
                           then (let s6 = emit (SpawnFfmpeg w f' (ffmpegCommand_of audioBuffer r)) s5
                                 in s6\<lparr>clientStreams :=
                                         (clientStreams s6)
                                         (w \<mapsto> clientData\<lparr>ffmpegProcess := Some f'\<rparr>)\<rparr>)
                           else emit (Log w ErrorProcessingChunk) s5))))"

text \<open>
  The \<^verbatim>\<open>message\<close> handler, lines 124 to 285. Its argument is the outcome of
  \<^verbatim>\<open>JSON.parse(message.toString())\<close>: \<open>None\<close> when it throws. Line 142 reads
  \<^verbatim>\<open>parsedMessage.type\<close> outside every \<^verbatim>\<open>try\<close>, so the value \<^verbatim>\<open>null\<close> makes the
  handler throw.
\<close>

datatype uncaught = TypeError

definition on_message ::
  "(json \<Rightarrow> byte list option) \<Rightarrow> ws \<Rightarrow> json option \<Rightarrow> state \<Rightarrow> uncaught + state" where
  "on_message Buffer_from w parsed s =
     (case parsed of
        None \<Rightarrow> Inr (emit (Log w InvalidJson) s)
      | Some parsedMessage \<Rightarrow>
          if parsedMessage = JNull then Inl TypeError
          else if member parsedMessage ''type'' = Some (JString ''audio_chunk'')
                  \<and> truthy (member parsedMessage ''data'')
          then Inr (audio_chunk Buffer_from w (the (member parsedMessage ''data'')) s)
          else if member parsedMessage ''type'' = Some (JString ''end_audio'')
          then Inr (emit (Log w EndAudioSignal) s)
          else Inr (emit (Log w (UnknownMessageType (member parsedMessage ''type''))) s))"

text \<open>The \<^verbatim>\<open>close\<close> and \<^verbatim>\<open>error\<close> handlers of the socket, lines 288 to 303.\<close>

definition on_close :: "ws \<Rightarrow> state \<Rightarrow> state" where
  "on_close w s = stopRecognitionStream w (emit (Log w ConnectionClosed) s)"

definition on_error :: "ws \<Rightarrow> state \<Rightarrow> state" where
  "on_error w s = stopRecognitionStream w (emit (Log w WebSocketError) s)"

subsection \<open>Events and executions\<close>

text \<open>
  The events the server reacts to. \<open>Closing\<close> has no handler: it is the library
  taking the socket out of the \<^verbatim>\<open>OPEN\<close> state when the closing handshake begins.
  The library sets \<^verbatim>\<open>readyState\<close> to \<^verbatim>\<open>CLOSED\<close> before it emits \<^verbatim>\<open>close\<close>.
  The \<^verbatim>\<open>end\<close> event of a recognition stream and the events of an ffmpeg command name
  the stream or the command that emits them: the stream is no longer writable when it
  has ended, and the command has a running process between its \<^verbatim>\<open>start\<close> and its
  \<^verbatim>\<open>error\<close> or \<^verbatim>\<open>end\<close>.
\<close>

datatype event =
    Message ws "json option"
  | Close ws
  | SocketError ws
  | Closing ws
  | RecognizeError ws string
  | RecognizeData ws recognizeData
  | RecognizeEnd ws handle
  | FfmpegStart ws handle string
  | FfmpegError ws handle string string
  | FfmpegEnd ws handle

fun step :: "(json \<Rightarrow> byte list option) \<Rightarrow> event \<Rightarrow> state \<Rightarrow> uncaught + state" where
  "step B (Message w parsed) s = on_message B w parsed s"
| "step B (Close w) s = Inr (on_close w (s\<lparr>readyState := (readyState s)(w := CLOSED)\<rparr>))"
| "step B (SocketError w) s = Inr (on_error w s)"
| "step B (Closing w) s =
     Inr (if readyState s w = OPEN then s\<lparr>readyState := (readyState s)(w := CLOSING)\<rparr> else s)"
| "step B (RecognizeError w message) s = Inr (on_recognize_error w message s)"
| "step B (RecognizeData w d) s = Inr (on_recognize_data w d s)"
| "step B (RecognizeEnd w h) s =
     Inr (on_recognize_end w (s\<lparr>writable := writable s - {h}\<rparr>))"
| "step B (FfmpegStart w f cmd) s =
     Inr (on_ffmpeg_start w cmd (s\<lparr>running := insert f (running s)\<rparr>))"
| "step B (FfmpegError w f message stderr) s =
     Inr (on_ffmpeg_error w message stderr (s\<lparr>running := running s - {f}\<rparr>))"
| "step B (FfmpegEnd w f) s = Inr (on_ffmpeg_end w (s\<lparr>running := running s - {f}\<rparr>))"

text \<open>
  An execution handles its events in order; an exception that leaves a handler is not
  caught anywhere and ends the process.
\<close>

fun run :: "(json \<Rightarrow> byte list option) \<Rightarrow> event list \<Rightarrow> state \<Rightarrow> uncaught + state" where
  "run B [] s = Inr s"
| "run B (e # es) s = (case step B e s of Inl x \<Rightarrow> Inl x | Inr s' \<Rightarrow> run B es s')"

subsection \<open>Live handles\<close>

text \<open>
  The handles of a client that the server has created and not yet released, read off a
  trace from left to right: \<^verbatim>\<open>pipe\<close> adds an ffmpeg command and \<^verbatim>\<open>kill\<close> removes it;
  \<^verbatim>\<open>streamingRecognize\<close> adds a recognition stream and \<^verbatim>\<open>destroy\<close> removes it. This
  is the bookkeeping of the calls that the server has issued: an ffmpeg command is
  counted from its \<^verbatim>\<open>pipe\<close> until a \<^verbatim>\<open>kill\<close> of it is issued. Which processes run is
  the field \<open>running\<close> of the state.
\<close>

fun effect_ws :: "effect \<Rightarrow> ws" where
  "effect_ws (Log w l) = w"
| "effect_ws (Send w m) = w"
| "effect_ws (OpenRecognize w h) = w"
| "effect_ws (DestroyRecognize w h) = w"
| "effect_ws (SpawnFfmpeg w f c) = w"
| "effect_ws (KillFfmpeg w f) = w"
| "effect_ws (RegistrySet w) = w"
| "effect_ws (RegistryDelete w) = w"

fun after_ffmpeg :: "ws \<Rightarrow> effect \<Rightarrow> handle set \<Rightarrow> handle set" where
  "after_ffmpeg w (SpawnFfmpeg w' f c) S = (if w' = w then insert f S else S)"
| "after_ffmpeg w (KillFfmpeg w' f) S = (if w' = w then S - {f} else S)"
| "after_ffmpeg w e S = S"

definition live_ffmpeg :: "ws \<Rightarrow> effect list \<Rightarrow> handle set" where
  "live_ffmpeg w tr = fold (after_ffmpeg w) tr {}"

fun after_recognize :: "ws \<Rightarrow> effect \<Rightarrow> handle set \<Rightarrow> handle set" where
  "after_recognize w (OpenRecognize w' h) S = (if w' = w then insert h S else S)"
| "after_recognize w (DestroyRecognize w' h) S = (if w' = w then S - {h} else S)"
| "after_recognize w e S = S"

definition live_recognize :: "ws \<Rightarrow> effect list \<Rightarrow> handle set" where
  "live_recognize w tr = fold (after_recognize w) tr {}"

text \<open>The handles that the registry holds for a client.\<close>

definition ffmpeg_handles :: "state \<Rightarrow> ws \<Rightarrow> handle set" where
  "ffmpeg_handles s w =
     (case clientStreams s w of None \<Rightarrow> {} | Some c \<Rightarrow> set_option (ffmpegProcess c))"

definition recognize_handles :: "state \<Rightarrow> ws \<Rightarrow> handle set" where
  "recognize_handles s w =
     (case clientStreams s w of None \<Rightarrow> {} | Some c \<Rightarrow> set_option (recognizeStream c))"

text \<open>At most one element.\<close>

definition single :: "handle set \<Rightarrow> bool" where
  "single S = (finite S \<and> card S \<le> 1)"

text \<open>
  At most one ffmpeg command of the client is live at the start of the trace, after
  each of its effects, and at its end.
\<close>

fun always_single :: "ws \<Rightarrow> handle set \<Rightarrow> effect list \<Rightarrow> bool" where
  "always_single w S [] = single S"
| "always_single w S (e # es) = (single S \<and> always_single w (after_ffmpeg w e S) es)"

text \<open>The effects of the last handler: what it appended to the trace.\<close>

definition emitted :: "state \<Rightarrow> state \<Rightarrow> effect list" where
  "emitted s s' = drop (length (trace s)) (trace s')"

text \<open>The connection that an event belongs to.\<close>

fun event_ws :: "event \<Rightarrow> ws" where
  "event_ws (Message w parsed) = w"
| "event_ws (Close w) = w"
| "event_ws (SocketError w) = w"
| "event_ws (Closing w) = w"
| "event_ws (RecognizeError w message) = w"
| "event_ws (RecognizeData w d) = w"
| "event_ws (RecognizeEnd w h) = w"
| "event_ws (FfmpegStart w f cmd) = w"
| "event_ws (FfmpegError w f message stderr) = w"
| "event_ws (FfmpegEnd w f) = w"

text \<open>
  A message that enters the \<^verbatim>\<open>audio_chunk\<close> branch of line 142: a value other than
  \<^verbatim>\<open>null\<close> with \<^verbatim>\<open>type\<close> equal to \<^verbatim>\<open>"audio_chunk"\<close> and a truthy \<^verbatim>\<open>data\<close>.
\<close>

definition is_audio_chunk :: "json option \<Rightarrow> bool" where
  "is_audio_chunk parsed =
     (case parsed of
        None \<Rightarrow> False
      | Some v \<Rightarrow> v \<noteq> JNull \<and> member v ''type'' = Some (JString ''audio_chunk'')
                   \<and> truthy (member v ''data''))"

text \<open>
  A handler of connection \<open>w\<close> only appends effects of \<open>w\<close> to the trace, leaves the
  registry entries of the other connections alone, and never gives a handle back.
\<close>

definition extends :: "ws \<Rightarrow> state \<Rightarrow> state \<Rightarrow> bool" where
  "extends w s s' =
     ((\<exists>X. trace s' = trace s @ X \<and> (\<forall>x\<in>set X. effect_ws x = w))
      \<and> (\<forall>w'. w' \<noteq> w \<longrightarrow> clientStreams s' w' = clientStreams s w')
      \<and> readyState s' = readyState s \<and> nextHandle s \<le> nextHandle s')"

text \<open>
  The invariant of a connection: its live recognition streams are the ones that the
  registry holds for it, its live ffmpeg commands are among the ones that the
  registry holds for it (the entry may hold a command that has been killed), at most
  one ffmpeg command of it has been live at any point of the trace, and an entry of
  the registry always holds a recognition stream.
\<close>

definition consistent :: "ws \<Rightarrow> state \<Rightarrow> bool" where
  "consistent w s =
     (live_ffmpeg w (trace s) \<subseteq> ffmpeg_handles s w
      \<and> live_recognize w (trace s) = recognize_handles s w
      \<and> always_single w {} (trace s)
      \<and> (case clientStreams s w of None \<Rightarrow> True | Some c \<Rightarrow> recognizeStream c \<noteq> None))"

text \<open>An event that is a message of connection \<open>w\<close>, and one that is an audio chunk.\<close>

fun is_message_for :: "ws \<Rightarrow> event \<Rightarrow> bool" where
  "is_message_for w (Message w' parsed) = (w' = w)"
| "is_message_for w e = False"

fun is_chunk_for :: "ws \<Rightarrow> event \<Rightarrow> bool" where
  "is_chunk_for w (Message w' parsed) = (w' = w \<and> is_audio_chunk parsed)"
| "is_chunk_for w e = False"

text \<open>
  The socket library emits no \<^verbatim>\<open>message\<close> event of a connection after its \<^verbatim>\<open>close\<close>
  event: the executions in which that holds.
\<close>

fun no_message_after_close :: "ws \<Rightarrow> event list \<Rightarrow> bool" where
  "no_message_after_close w [] = True"
| "no_message_after_close w (e # es) =
     ((if e = Close w then \<not> list_ex (is_message_for w) es else True)
      \<and> no_message_after_close w es)"

text \<open>
  The envelope that the \<^verbatim>\<open>data\<close> handler builds from a result event: the transcript of
  the first alternative of the first result with the \<^verbatim>\<open>isFinal\<close> of that result; none
  when \<^verbatim>\<open>data.results[0]?.alternatives[0]\<close> is undefined.
\<close>

definition top_transcript :: "recognizeData \<Rightarrow> envelope option" where
  "top_transcript d =
     (case results d of
        [] \<Rightarrow> None
      | r # rs \<Rightarrow>
          (case alternatives r of
             [] \<Rightarrow> None
           | a # as \<Rightarrow> Some (Transcript (transcript a) (isFinal r))))"

text \<open>The result events of connection \<open>w\<close> in an execution, as envelopes.\<close>

fun result_of :: "ws \<Rightarrow> event \<Rightarrow> envelope option" where
  "result_of w (RecognizeData w' d) = (if w' = w then top_transcript d else None)"
| "result_of w e = None"

text \<open>The transcript envelopes sent on connection \<open>w\<close> in a trace, in the order sent.\<close>

fun transcript_to :: "ws \<Rightarrow> effect \<Rightarrow> envelope option" where
  "transcript_to w (Send w' (Transcript t f)) = (if w' = w then Some (Transcript t f) else None)"
| "transcript_to w e = None"

definition transcripts_sent :: "ws \<Rightarrow> effect list \<Rightarrow> envelope list" where
  "transcripts_sent w tr = List.map_filter (transcript_to w) tr"

text \<open>
  An event that leaves the socket of \<open>w\<close> in the state it is in: any event but the
  two that take the socket out of the open state.
\<close>

definition stays_open :: "ws \<Rightarrow> event \<Rightarrow> bool" where
  "stays_open w e = (e \<noteq> Close w \<and> e \<noteq> Closing w)"

text \<open>The recognition streams opened and destroyed for \<open>w\<close> in a trace, in order.\<close>

fun open_of :: "ws \<Rightarrow> effect \<Rightarrow> handle option" where
  "open_of w (OpenRecognize w' h) = (if w' = w then Some h else None)"
| "open_of w e = None"

fun destroy_of :: "ws \<Rightarrow> effect \<Rightarrow> handle option" where
  "destroy_of w (DestroyRecognize w' h) = (if w' = w then Some h else None)"
| "destroy_of w e = None"

definition opened :: "ws \<Rightarrow> effect list \<Rightarrow> handle list" where
  "opened w tr = List.map_filter (open_of w) tr"

definition destroyed :: "ws \<Rightarrow> effect list \<Rightarrow> handle list" where
  "destroyed w tr = List.map_filter (destroy_of w) tr"

text \<open>The ffmpeg commands spawned for \<open>w\<close> in a trace, in order.\<close>

fun spawn_of :: "ws \<Rightarrow> effect \<Rightarrow> (handle \<times> ffmpegCommand) option" where
  "spawn_of w (SpawnFfmpeg w' f c) = (if w' = w then Some (f, c) else None)"
| "spawn_of w e = None"

definition spawned :: "ws \<Rightarrow> effect list \<Rightarrow> (handle \<times> ffmpegCommand) list" where
  "spawned w tr = List.map_filter (spawn_of w) tr"

subsection \<open>Sample inputs\<close>

text \<open>
  The inputs of the examples below. \<^verbatim>\<open>Buffer.from("AAAA", "base64")\<close> is the buffer of
  three zero bytes; \<open>Buffer_from_sample\<close> is the decoder at that payload, and stands for
  a throwing call anywhere else. The general theorems hold for every decoder.
\<close>

definition Buffer_from_sample :: "json \<Rightarrow> byte list option" where
  "Buffer_from_sample v = (if v = JString ''AAAA'' then Some [0, 0, 0] else None)"

definition chunk_message :: "json option" where
  "chunk_message =
     Some (JObject [(''type'', JString ''audio_chunk''), (''data'', JString ''AAAA'')])"

definition end_audio_message :: "json option" where
  "end_audio_message = Some (JObject [(''type'', JString ''end_audio'')])"

definition nonsense_message :: "json option" where
  "nonsense_message = Some (JObject [(''type'', JString ''nonsense'')])"

definition empty_chunk_message :: "json option" where
  "empty_chunk_message =
     Some (JObject [(''type'', JString ''audio_chunk''), (''data'', JString [])])"

text \<open>Two result events: an interim result and a final one.\<close>

definition result_hel :: recognizeData where
  "result_hel = \<lparr>results = [\<lparr>alternatives = [\<lparr>transcript = ''hel''\<rparr>], isFinal = False\<rparr>]\<rparr>"

definition result_hello_world :: recognizeData where
  "result_hello_world =
     \<lparr>results = [\<lparr>alternatives = [\<lparr>transcript = ''hello world''\<rparr>], isFinal = True\<rparr>]\<rparr>"

section \<open>Properties\<close>

subsection \<open>Basic facts\<close>

lemma emit_simps [simp]:
  "trace (emit e s) = trace s @ [e]"
  "clientStreams (emit e s) = clientStreams s"
  "readyState (emit e s) = readyState s"
  "nextHandle (emit e s) = nextHandle s"
  "writable (emit e s) = writable s"
  "running (emit e s) = running s"
  by (simp_all add: emit_def)

lemma init_simps [simp]:
  "trace init = []"
  "clientStreams init = Map.empty"
  "readyState init = (\<lambda>w. OPEN)"
  "nextHandle init = 0"
  "writable init = {}"
  "running init = {}"
  by (simp_all add: init_def)

subsection \<open>Traces and live handles\<close>

lemma after_other:
  "effect_ws e \<noteq> w \<Longrightarrow> after_ffmpeg w e S = S"
  "effect_ws e \<noteq> w \<Longrightarrow> after_recognize w e S = S"
  by (cases e; simp)+

lemma fold_after_other:
  "\<forall>x\<in>set X. effect_ws x \<noteq> w \<Longrightarrow> fold (after_ffmpeg w) X S = S"
  "\<forall>x\<in>set X. effect_ws x \<noteq> w \<Longrightarrow> fold (after_recognize w) X S = S"
  by (induction X) (simp_all add: after_other)

lemma always_single_other:
  "\<forall>x\<in>set X. effect_ws x \<noteq> w \<Longrightarrow> always_single w S X = single S"
  by (induction X) (auto simp: after_other)

lemma always_single_start: "always_single w S es \<Longrightarrow> single S"
  by (cases es) auto

lemma always_single_append:
  "always_single w S (xs @ ys)
     = (always_single w S xs \<and> always_single w (fold (after_ffmpeg w) xs S) ys)"
  by (induction xs arbitrary: S) (auto dest: always_single_start)

lemma always_single_take:
  "always_single w S tr \<Longrightarrow> single (fold (after_ffmpeg w) (take n tr) S)"
proof (induction tr arbitrary: S n)
  case Nil
  then show ?case by simp
next
  case (Cons e tr)
  then show ?case by (cases n) auto
qed

lemma always_single_end: "always_single w S tr \<Longrightarrow> single (fold (after_ffmpeg w) tr S)"
  using always_single_take [of w S tr "length tr"] by simp

lemma single_simps [simp]: "single {}" "single {x}"
  by (simp_all add: single_def)

lemma subset_singleton_Diff: "S \<subseteq> {x} \<Longrightarrow> S - {x} = {}"
  by auto

lemma live_append:
  "live_ffmpeg w (tr @ es) = fold (after_ffmpeg w) es (live_ffmpeg w tr)"
  "live_recognize w (tr @ es) = fold (after_recognize w) es (live_recognize w tr)"
  by (simp_all add: live_ffmpeg_def live_recognize_def)

lemma always_single_trace:
  "always_single w {} (tr @ es)
     = (always_single w {} tr \<and> always_single w (live_ffmpeg w tr) es)"
  by (simp add: always_single_append live_ffmpeg_def)

subsection \<open>Every handler extends the state of its own connection\<close>

lemma extends_refl [simp]: "extends w s s"
  by (simp add: extends_def)

lemma extends_emit: "effect_ws e = w \<Longrightarrow> extends w s (emit e s)"
  by (simp add: extends_def)

lemma extends_audio_chunk: "extends w s (audio_chunk B w v s)"
  by (simp add: extends_def audio_chunk_def startRecognitionStream_def Let_def
      split: option.splits)

lemma extends_on_message: "on_message B w p s = Inr s' \<Longrightarrow> extends w s s'"
  by (auto simp: on_message_def extends_audio_chunk extends_emit split: option.splits if_splits)

lemma extends_step:
  "step B e s = Inr s' \<Longrightarrow> extends (event_ws e) (s\<lparr>readyState := readyState s'\<rparr>) s'"
  by (cases e)
    (auto simp: extends_def on_close_def on_error_def on_recognize_error_def
      on_recognize_data_def on_recognize_end_def on_ffmpeg_start_def on_ffmpeg_error_def
      on_ffmpeg_end_def stopRecognitionStream_def Let_def
      split: list.splits option.splits dest!: extends_on_message)

subsection \<open>The invariant of a connection\<close>

lemma consistent_single: "consistent w s \<Longrightarrow> single (live_ffmpeg w (trace s))"
  unfolding consistent_def live_ffmpeg_def
  using always_single_end [of w "{}" "trace s"] by simp

lemma consistent_frame:
  assumes "consistent w s" and "extends w' s0 s'" and "w' \<noteq> w"
    and "trace s0 = trace s" and "clientStreams s0 = clientStreams s"
  shows "consistent w s'"
proof -
  from assms(2) obtain X where X: "trace s' = trace s0 @ X" "\<forall>x\<in>set X. effect_ws x = w'"
    and cs: "clientStreams s' w = clientStreams s0 w"
    using assms(3) unfolding extends_def by auto
  from X(2) assms(3) have other: "\<forall>x\<in>set X. effect_ws x \<noteq> w" by auto
  show ?thesis
    using assms(1) consistent_single [OF assms(1)] cs
    by (simp add: consistent_def X(1) assms(4,5) live_append always_single_trace
        fold_after_other [OF other] always_single_other [OF other]
        ffmpeg_handles_def recognize_handles_def)
qed

lemmas consistent_unfold =
  consistent_def live_append always_single_trace ffmpeg_handles_def recognize_handles_def

lemma consistent_emit_Log: "consistent w s \<Longrightarrow> consistent w (emit (Log w' l) s)"
  by (frule consistent_single) (simp add: consistent_unfold)

lemma consistent_emit_Send: "consistent w s \<Longrightarrow> consistent w (emit (Send w' m) s)"
  by (frule consistent_single) (simp add: consistent_unfold)

lemma consistent_stop: "consistent w s \<Longrightarrow> consistent w (stopRecognitionStream w s)"
  by (frule consistent_single)
    (auto simp: consistent_unfold stopRecognitionStream_def Let_def subset_singleton_Diff
      split: option.splits)

lemma consistent_audio_chunk: "consistent w s \<Longrightarrow> consistent w (audio_chunk B w v s)"
  by (frule consistent_single)
    (auto simp: consistent_unfold audio_chunk_def startRecognitionStream_def Let_def
      subset_singleton_Diff split: option.splits)

lemma consistent_on_message:
  "consistent w s \<Longrightarrow> on_message B w p s = Inr s' \<Longrightarrow> consistent w s'"
  by (auto simp: on_message_def consistent_audio_chunk consistent_emit_Log
      split: option.splits if_splits)

lemma consistent_readyState [simp]:
  "consistent w (s\<lparr>readyState := X\<rparr>) = consistent w s"
  "consistent w (s\<lparr>writable := Y\<rparr>) = consistent w s"
  "consistent w (s\<lparr>running := Y\<rparr>) = consistent w s"
  by (simp_all add: consistent_def ffmpeg_handles_def recognize_handles_def)

lemma consistent_step_same:
  "consistent w s \<Longrightarrow> step B e s = Inr s' \<Longrightarrow> event_ws e = w \<Longrightarrow> consistent w s'"
  by (cases e)
    (auto simp: consistent_on_message on_close_def on_error_def on_recognize_error_def
      on_recognize_data_def on_recognize_end_def on_ffmpeg_start_def on_ffmpeg_error_def
      on_ffmpeg_end_def consistent_stop consistent_emit_Log consistent_emit_Send Let_def
      split: list.splits)

lemma consistent_step:
  assumes "consistent w s" and "step B e s = Inr s'"
  shows "consistent w s'"
proof (cases "event_ws e = w")
  case True
  with assms show ?thesis by (rule consistent_step_same)
next
  case False
  show ?thesis
    by (rule consistent_frame [OF assms(1) extends_step [OF assms(2)] False]) simp_all
qed

lemma consistent_init: "consistent w init"
  by (simp add: consistent_def live_ffmpeg_def live_recognize_def ffmpeg_handles_def
      recognize_handles_def)

lemma consistent_run: "consistent w s \<Longrightarrow> run B evs s = Inr s' \<Longrightarrow> consistent w s'"
  by (induction evs arbitrary: s) (auto split: sum.splits dest: consistent_step)

subsection \<open>The message router\<close>

text \<open>
  A message that is not JSON, or a JSON value other than \<^verbatim>\<open>null\<close> whose \<^verbatim>\<open>type\<close> is
  neither \<^verbatim>\<open>audio_chunk\<close> nor \<^verbatim>\<open>end_audio\<close>, is logged and dropped: the handler returns
  normally, the only effect is one line of log (nothing is sent, opened, destroyed,
  spawned or killed), and the registry, the socket state and the handle supply are
  unchanged.
\<close>

lemma malformed_message_discarded:
  assumes "parsed = None \<or> (\<exists>v. parsed = Some v \<and> v \<noteq> JNull
             \<and> member v ''type'' \<noteq> Some (JString ''audio_chunk'')
             \<and> member v ''type'' \<noteq> Some (JString ''end_audio''))"
  shows "\<exists>s' l. on_message B w parsed s = Inr s' \<and> trace s' = trace s @ [Log w l]
           \<and> (l = InvalidJson
                \<or> l = UnknownMessageType (Option.bind parsed (\<lambda>v. member v ''type'')))
           \<and> clientStreams s' = clientStreams s \<and> readyState s' = readyState s
           \<and> nextHandle s' = nextHandle s"
  using assms by (auto simp: on_message_def)

lemma on_message_null: "on_message B w (Some JNull) s = Inl TypeError"
  by (simp add: on_message_def)

text \<open>
  C9. The frame \<^verbatim>\<open>null\<close> is valid JSON that carries no recognized type. The handler
  does not log and drop it: line 142 reads \<^verbatim>\<open>parsedMessage.type\<close> outside every \<^verbatim>\<open>try\<close>,
  the read throws, and nothing catches the exception, which ends the process; here
  while client 1 has a session, which is lost with it.
\<close>

theorem C9_null_frame_ends_process:
  "on_message Buffer_from_sample 0 (Some JNull) init = Inl TypeError
   \<and> \<not> isl (run Buffer_from_sample [Message 1 chunk_message] init)
   \<and> clientStreams (projr (run Buffer_from_sample [Message 1 chunk_message] init)) 1
       = Some \<lparr>recognizeStream = Some 0, ffmpegProcess = Some 1\<rparr>
   \<and> run Buffer_from_sample [Message 1 chunk_message, Message 0 (Some JNull)] init
       = Inl TypeError"
  by (simp add: chunk_message_def Buffer_from_sample_def on_message_def audio_chunk_def
      startRecognitionStream_def Let_def)

text \<open>
  C10. An \<^verbatim>\<open>audio_chunk\<close> envelope whose \<^verbatim>\<open>data\<close> is absent or falsy takes the last
  branch of the handler, the one of unknown types: the handler returns normally, the
  only effect is the line of log of that branch (so nothing is decoded, no recognition
  stream is opened, no ffmpeg command is spawned, and the failure message of the
  \<^verbatim>\<open>catch\<close> is not printed), and the state is unchanged.
\<close>

theorem C10_chunk_without_data_is_unknown_type:
  assumes "member v ''type'' = Some (JString ''audio_chunk'')"
    and "\<not> truthy (member v ''data'')"
  shows "\<exists>s'. on_message B w (Some v) s = Inr s'
           \<and> trace s' = trace s @ [Log w (UnknownMessageType (Some (JString ''audio_chunk'')))]
           \<and> clientStreams s' = clientStreams s \<and> readyState s' = readyState s
           \<and> nextHandle s' = nextHandle s"
  using assms by (auto simp: on_message_def)

theorem C10_chunk_without_data_is_unknown_type_witness:
  "trace (projr (on_message Buffer_from_sample 0 empty_chunk_message init))
     = [Log 0 (UnknownMessageType (Some (JString ''audio_chunk'')))]
   \<and> \<not> isl (on_message Buffer_from_sample 0 empty_chunk_message init)
   \<and> clientStreams (projr (on_message Buffer_from_sample 0 empty_chunk_message init)) 0 = None"
proof -
  let ?v = "JObject [(''type'', JString ''audio_chunk''), (''data'', JString [])]"
  have h1: "member ?v ''type'' = Some (JString ''audio_chunk'')" by simp
  have h2: "\<not> truthy (member ?v ''data'')" by simp
  from C10_chunk_without_data_is_unknown_type [OF h1 h2, of Buffer_from_sample 0 init]
  show ?thesis by (auto simp: empty_chunk_message_def on_message_def)
qed

subsection \<open>Teardown\<close>

text \<open>
  C7. Calling \<^verbatim>\<open>stopRecognitionStream\<close> twice on a session releases each handle once
  and removes the registry entry once: the first call destroys the recognition stream
  of the entry (when it has one), kills its ffmpeg command (when it has one) and
  deletes the entry; the second call finds no entry, prints one line and changes
  nothing else. The function is total, so neither call fails. (Node runs handlers
  one after the other, so two calls are never interleaved.)
\<close>

theorem C7_teardown_idempotent:
  "trace (stopRecognitionStream w (stopRecognitionStream w s))
     = trace s
       @ (case clientStreams s w of
            None \<Rightarrow> [Log w NoActiveStream]
          | Some c \<Rightarrow>
              (case recognizeStream c of
                 None \<Rightarrow> []
               | Some r \<Rightarrow> [Log w DestroyingRecognizeStream, DestroyRecognize w r])
              @ (case ffmpegProcess c of
                   None \<Rightarrow> []
                 | Some f \<Rightarrow> [Log w KillingFfmpeg, KillFfmpeg w f])
              @ [RegistryDelete w])
       @ [Log w NoActiveStream]
   \<and> clientStreams (stopRecognitionStream w (stopRecognitionStream w s))
       = (clientStreams s)(w := None)
   \<and> clientStreams (stopRecognitionStream w (stopRecognitionStream w s))
       = clientStreams (stopRecognitionStream w s)
   \<and> nextHandle (stopRecognitionStream w (stopRecognitionStream w s)) = nextHandle s
   \<and> readyState (stopRecognitionStream w (stopRecognitionStream w s)) = readyState s"
  by (auto simp: stopRecognitionStream_def Let_def split: option.splits)

subsection \<open>Failure of a transcoder\<close>

text \<open>
  C1. The \<^verbatim>\<open>error\<close> handler of the ffmpeg command prints the failure and nothing
  else: after a chunk has spawned command 1 and that command has failed, the entry of
  the client still holds command 1 (it is not set back to \<^verbatim>\<open>null\<close>); the recognition
  stream 0 is still in the entry and has not been destroyed.
\<close>

theorem C1_ffmpeg_error_keeps_handle:
  "\<not> isl (run Buffer_from_sample [Message 0 chunk_message, FfmpegError 0 1 ''boom'' ''err''] init)
   \<and> clientStreams
        (projr (run Buffer_from_sample [Message 0 chunk_message, FfmpegError 0 1 ''boom'' ''err''] init)) 0
       = Some \<lparr>recognizeStream = Some 0, ffmpegProcess = Some 1\<rparr>
   \<and> drop 8 (trace
        (projr (run Buffer_from_sample [Message 0 chunk_message, FfmpegError 0 1 ''boom'' ''err''] init)))
       = [Log 0 (FfmpegErrorMessage ''boom''), Log 0 (FfmpegStderr ''err'')]"
  by (simp add: chunk_message_def Buffer_from_sample_def on_message_def audio_chunk_def
      startRecognitionStream_def on_ffmpeg_error_def Let_def)

lemma emitted_append [simp]: "emitted s (s'\<lparr>trace := trace s @ X\<rparr>) = X"
  by (simp add: emitted_def)

lemma emitted_trace: "trace s' = trace s @ X \<Longrightarrow> emitted s s' = X"
  by (simp add: emitted_def)

subsection \<open>The transcoder of a session\<close>

text \<open>
  C5, as the claim states it, fails. Two chunks of one client arrive one after the
  other. For the second, the handler calls \<^verbatim>\<open>kill\<close> on command 1 and then pipes command
  2. The process of command 1 has not started yet, so the signal reaches no process;
  the processes of both commands start afterwards, and two transcoders of the same
  session run at once.
\<close>

theorem C5_two_transcoders_running:
  "\<not> isl (run Buffer_from_sample
        [Message 0 chunk_message, Message 0 chunk_message,
         FfmpegStart 0 1 ''ffmpeg'', FfmpegStart 0 2 ''ffmpeg''] init)
   \<and> map fst (spawned 0 (trace (projr (run Buffer_from_sample
        [Message 0 chunk_message, Message 0 chunk_message,
         FfmpegStart 0 1 ''ffmpeg'', FfmpegStart 0 2 ''ffmpeg''] init)))) = [1, 2]
   \<and> running (projr (run Buffer_from_sample
        [Message 0 chunk_message, Message 0 chunk_message,
         FfmpegStart 0 1 ''ffmpeg'', FfmpegStart 0 2 ''ffmpeg''] init)) = {1, 2}"
  by (auto simp: chunk_message_def Buffer_from_sample_def on_message_def audio_chunk_def
      startRecognitionStream_def on_ffmpeg_start_def Let_def spawned_def map_filter_simps)

text \<open>
  C5, amended. In every state that the server reaches, and at every point of the trace
  that led to it, at most one ffmpeg command of a client has been spawned and not yet
  been sent a kill. When a chunk that decodes arrives for a client whose entry holds a
  command, the handler issues the \<^verbatim>\<open>SIGKILL\<close> of that command first; then, if the
  recognition stream of the entry is writable, it spawns the new command, which
  replaces the old one in the entry, and otherwise it prints the error of \<^verbatim>\<open>pipe\<close>,
  spawns nothing and leaves the entry as it is. Whether the process of the killed
  command is still running, or yet to start, is not part of the statement.
\<close>

theorem C5_kill_issued_before_spawn:
  assumes "run B evs init = Inr s"
  shows "(\<forall>n. single (live_ffmpeg w (take n (trace s))))
    \<and> (\<forall>v c f bytes.
          is_audio_chunk (Some v) \<and> B (the (member v ''data'')) = Some bytes
          \<and> clientStreams s w = Some c \<and> ffmpegProcess c = Some f
        \<longrightarrow> (\<exists>s' r. step B (Message w (Some v)) s = Inr s'
               \<and> recognizeStream c = Some r
               \<and> emitted s s' =
                   [Log w (ReceivedAudioChunk (length bytes)),
                    Log w (FirstBytes (take 16 bytes)),
                    Log w KillingPreviousFfmpeg,
                    KillFfmpeg w f,
                    Log w AttemptingRawPcm]
                   @ (if r \<in> writable s
                      then [SpawnFfmpeg w (nextHandle s) (ffmpegCommand_of bytes r)]
                      else [Log w ErrorProcessingChunk])
               \<and> clientStreams s' w
                   = Some (if r \<in> writable s then c\<lparr>ffmpegProcess := Some (nextHandle s)\<rparr>
                           else c)))"
proof -
  have c: "consistent w s"
    using consistent_run [OF consistent_init assms] .
  then have "always_single w {} (trace s)"
    by (simp add: consistent_def)
  then have first: "\<forall>n. single (live_ffmpeg w (take n (trace s)))"
    unfolding live_ffmpeg_def by (simp add: always_single_take)
  have second: "\<exists>s' r. step B (Message w (Some v)) s = Inr s'
               \<and> recognizeStream c' = Some r
               \<and> emitted s s' =
                   [Log w (ReceivedAudioChunk (length bytes)),
                    Log w (FirstBytes (take 16 bytes)),
                    Log w KillingPreviousFfmpeg,
                    KillFfmpeg w f,
                    Log w AttemptingRawPcm]
                   @ (if r \<in> writable s
                      then [SpawnFfmpeg w (nextHandle s) (ffmpegCommand_of bytes r)]
                      else [Log w ErrorProcessingChunk])
               \<and> clientStreams s' w
                   = Some (if r \<in> writable s then c'\<lparr>ffmpegProcess := Some (nextHandle s)\<rparr>
                           else c')"
    if "is_audio_chunk (Some v)" "B (the (member v ''data'')) = Some bytes"
      "clientStreams s w = Some c'" "ffmpegProcess c' = Some f" for v c' f bytes
  proof -
    from c that(3) obtain r where r: "recognizeStream c' = Some r"
      by (auto simp: consistent_def)
    show ?thesis
      using that r
      by (simp add: is_audio_chunk_def on_message_def audio_chunk_def Let_def emitted_def)
  qed
  from first second show ?thesis by blast
qed

theorem C5_kill_issued_before_spawn_witness:
  "single (live_ffmpeg 0 (take 8 (trace (projr (run Buffer_from_sample [Message 0 chunk_message] init)))))
   \<and> emitted (projr (run Buffer_from_sample [Message 0 chunk_message] init))
       (projr (step Buffer_from_sample (Message 0 chunk_message)
          (projr (run Buffer_from_sample [Message 0 chunk_message] init))))
     = [Log 0 (ReceivedAudioChunk 3), Log 0 (FirstBytes [0, 0, 0]), Log 0 KillingPreviousFfmpeg,
        KillFfmpeg 0 1, Log 0 AttemptingRawPcm,
        SpawnFfmpeg 0 2 (ffmpegCommand_of [0, 0, 0] 0)]"
proof -
  let ?s = "projr (run Buffer_from_sample [Message 0 chunk_message] init)"
  let ?v = "JObject [(''type'', JString ''audio_chunk''), (''data'', JString ''AAAA'')]"
  have r: "run Buffer_from_sample [Message 0 chunk_message] init = Inr ?s"
    by (simp add: chunk_message_def Buffer_from_sample_def on_message_def)
  have s: "clientStreams ?s 0 = Some \<lparr>recognizeStream = Some 0, ffmpegProcess = Some 1\<rparr>"
    "nextHandle ?s = 2" "0 \<in> writable ?s"
    by (simp_all add: chunk_message_def Buffer_from_sample_def on_message_def audio_chunk_def
        startRecognitionStream_def Let_def)
  have h: "is_audio_chunk (Some ?v) \<and> Buffer_from_sample (the (member ?v ''data'')) = Some [0, 0, 0]
      \<and> clientStreams ?s 0 = Some \<lparr>recognizeStream = Some 0, ffmpegProcess = Some 1\<rparr>
      \<and> ffmpegProcess \<lparr>recognizeStream = Some 0, ffmpegProcess = Some 1\<rparr> = Some 1"
    using s by (simp add: is_audio_chunk_def Buffer_from_sample_def)
  from C5_kill_issued_before_spawn [OF r, of 0] h
  have "single (live_ffmpeg 0 (take 8 (trace ?s)))"
    and "\<exists>s' r. step Buffer_from_sample (Message 0 (Some ?v)) ?s = Inr s'
           \<and> recognizeStream \<lparr>recognizeStream = Some 0, ffmpegProcess = Some 1\<rparr> = Some r
           \<and> emitted ?s s' = [Log 0 (ReceivedAudioChunk (length [0::byte, 0, 0])),
                    Log 0 (FirstBytes (take 16 [0, 0, 0])),
                    Log 0 KillingPreviousFfmpeg,
                    KillFfmpeg 0 1,
                    Log 0 AttemptingRawPcm]
                   @ (if r \<in> writable ?s
                      then [SpawnFfmpeg 0 (nextHandle ?s) (ffmpegCommand_of [0, 0, 0] r)]
                      else [Log 0 ErrorProcessingChunk])
           \<and> clientStreams s' 0
               = Some (if r \<in> writable ?s
                       then \<lparr>recognizeStream = Some 0, ffmpegProcess = Some 1\<rparr>
                              \<lparr>ffmpegProcess := Some (nextHandle ?s)\<rparr>
                       else \<lparr>recognizeStream = Some 0, ffmpegProcess = Some 1\<rparr>)"
    by blast+
  then show ?thesis
    using s(2,3) by (auto simp: chunk_message_def)
qed

subsection \<open>The recognition stream of a session\<close>

lemma map_filter_other:
  "\<forall>x\<in>set X. effect_ws x \<noteq> w \<Longrightarrow> opened w X = []"
  "\<forall>x\<in>set X. effect_ws x \<noteq> w \<Longrightarrow> destroyed w X = []"
  "\<forall>x\<in>set X. effect_ws x \<noteq> w \<Longrightarrow> spawned w X = []"
proof (induction X)
  case Nil
  { case 1 show ?case by (simp add: opened_def map_filter_simps) }
  { case 2 show ?case by (simp add: destroyed_def map_filter_simps) }
  { case 3 show ?case by (simp add: spawned_def map_filter_simps) }
next
  case (Cons x X)
  { case 1 with Cons(1) show ?case by (cases x) (simp_all add: opened_def map_filter_simps) }
  { case 2 with Cons(2) show ?case by (cases x) (simp_all add: destroyed_def map_filter_simps) }
  { case 3 with Cons(3) show ?case by (cases x) (simp_all add: spawned_def map_filter_simps) }
qed

lemma step_other:
  assumes "step B e s = Inr s'" and "event_ws e \<noteq> w"
  shows "opened w (emitted s s') = []" "destroyed w (emitted s s') = []"
    "spawned w (emitted s s') = []" "clientStreams s' w = clientStreams s w"
    "\<not> is_chunk_for w e"
proof -
  from extends_step [OF assms(1)] assms(2)
  obtain X where X: "trace s' = trace s @ X" "\<forall>x\<in>set X. effect_ws x \<noteq> w"
    and cs: "clientStreams s' w = clientStreams s w"
    unfolding extends_def by auto
  from X(1) have em: "emitted s s' = X" by (rule emitted_trace)
  show "opened w (emitted s s') = []" "destroyed w (emitted s s') = []"
    "spawned w (emitted s s') = []"
    by (simp_all add: em map_filter_other [OF X(2)])
  show "clientStreams s' w = clientStreams s w" by (rule cs)
  show "\<not> is_chunk_for w e" using assms(2) by (cases e) auto
qed

lemmas observe_defs = opened_def destroyed_def spawned_def map_filter_simps emitted_def

lemma stop_observed:
  "consistent w s \<Longrightarrow> trace s0 = trace s @ [Log w l] \<Longrightarrow> clientStreams s0 = clientStreams s \<Longrightarrow>
   opened w (emitted s (stopRecognitionStream w s0)) = [] \<and>
   spawned w (emitted s (stopRecognitionStream w s0)) = [] \<and>
   destroyed w (emitted s (stopRecognitionStream w s0)) = (case clientStreams s w of None \<Rightarrow> [] | Some c \<Rightarrow> [the (recognizeStream c)]) \<and>
   clientStreams (stopRecognitionStream w s0) w = None"
  by (auto simp: consistent_def stopRecognitionStream_def Let_def observe_defs split: option.splits)

lemma audio_chunk_observed:
  assumes "consistent w s"
  shows "opened w (emitted s (audio_chunk B w v s)) = (if clientStreams s w = None then [nextHandle s] else [])"
    "destroyed w (emitted s (audio_chunk B w v s)) = []"
    "clientStreams (audio_chunk B w v s) w \<noteq> None"
    "clientStreams s w = None \<longrightarrow> recognize_handles (audio_chunk B w v s) w = {nextHandle s}"
    "\<forall>f c. (f, c) \<in> set (spawned w (emitted s (audio_chunk B w v s)))
        \<longrightarrow> pipeEnd c = False \<and> recognize_handles (audio_chunk B w v s) w = {pipeTarget c}"
  using assms
  by (auto simp: consistent_def audio_chunk_def startRecognitionStream_def Let_def observe_defs
      recognize_handles_def ffmpegCommand_of_def split: option.splits)

lemmas audio_chunk_unfolded = audio_chunk_observed [unfolded opened_def destroyed_def spawned_def emitted_def]

lemma step_same_observed:
  assumes "consistent w s" and "step B e s = Inr s'" and "event_ws e = w"
  shows "opened w (emitted s s') = (if is_chunk_for w e \<and> clientStreams s w = None then [nextHandle s] else [])"
    "destroyed w (emitted s s') = (case clientStreams s w of None \<Rightarrow> [] | Some c \<Rightarrow> if clientStreams s' w = None then [the (recognizeStream c)] else [])"
    "is_chunk_for w e \<and> clientStreams s w = None \<longrightarrow> recognize_handles s' w = {nextHandle s}"
    "\<forall>f c. (f, c) \<in> set (spawned w (emitted s s'))
        \<longrightarrow> pipeEnd c = False \<and> recognize_handles s' w = {pipeTarget c}"
proof -
  show "opened w (emitted s s') = (if is_chunk_for w e \<and> clientStreams s w = None then [nextHandle s] else [])"
    using assms
    apply (cases e)
    apply (auto simp: on_message_def is_audio_chunk_def audio_chunk_unfolded on_close_def on_error_def on_recognize_error_def
      on_recognize_data_def on_recognize_end_def on_ffmpeg_start_def on_ffmpeg_error_def
      on_ffmpeg_end_def Let_def  stopRecognitionStream_def observe_defs
      split: list.splits option.splits if_splits)
    done
  show "destroyed w (emitted s s') = (case clientStreams s w of None \<Rightarrow> [] | Some c \<Rightarrow> if clientStreams s' w = None then [the (recognizeStream c)] else [])"
    using assms
    apply (cases e)
    apply (auto simp: on_message_def is_audio_chunk_def audio_chunk_unfolded on_close_def on_error_def on_recognize_error_def
      on_recognize_data_def on_recognize_end_def on_ffmpeg_start_def on_ffmpeg_error_def
      on_ffmpeg_end_def Let_def  stopRecognitionStream_def observe_defs consistent_def
      split: list.splits option.splits if_splits)
    done
  show "is_chunk_for w e \<and> clientStreams s w = None \<longrightarrow> recognize_handles s' w = {nextHandle s}"
    using assms
    apply (cases e)
    apply (auto simp: on_message_def is_audio_chunk_def audio_chunk_observed audio_chunk_unfolded
      split: list.splits option.splits if_splits)
    done
  show "\<forall>f c. (f, c) \<in> set (spawned w (emitted s s'))
        \<longrightarrow> pipeEnd c = False \<and> recognize_handles s' w = {pipeTarget c}"
    using assms
    apply (cases e)
    apply (auto simp: on_message_def is_audio_chunk_def audio_chunk_unfolded on_close_def on_error_def on_recognize_error_def
      on_recognize_data_def on_recognize_end_def on_ffmpeg_start_def on_ffmpeg_error_def
      on_ffmpeg_end_def Let_def  stopRecognitionStream_def observe_defs
      split: list.splits option.splits if_splits)
    done
qed

text \<open>
  C6. A session is in the registry exactly when a recognition stream of it is open,
  and that stream is the one the entry holds. A handler opens a recognition stream
  only when it handles an audio chunk of a client that has no entry, and then opens
  exactly one, which the new entry holds; so a stream is never opened while one is
  open. A handler destroys a recognition stream only when it removes the entry.
  Every ffmpeg command is piped into the stream of the entry with \<^verbatim>\<open>end: false\<close>.
\<close>

theorem C6_recognition_handle_lifetime:
  assumes "run B evs init = Inr s" and "step B e s = Inr s'"
  shows "(clientStreams s w \<noteq> None) = (live_recognize w (trace s) \<noteq> {})
    \<and> live_recognize w (trace s) = recognize_handles s w
    \<and> opened w (emitted s s')
        = (if is_chunk_for w e \<and> clientStreams s w = None then [nextHandle s] else [])
    \<and> (is_chunk_for w e \<and> clientStreams s w = None
         \<longrightarrow> recognize_handles s' w = {nextHandle s})
    \<and> destroyed w (emitted s s')
        = (case clientStreams s w of
             None \<Rightarrow> []
           | Some c \<Rightarrow>
               if clientStreams s' w = None
               then (case recognizeStream c of None \<Rightarrow> [] | Some h \<Rightarrow> [h])
               else [])
    \<and> (\<forall>f c. (f, c) \<in> set (spawned w (emitted s s'))
         \<longrightarrow> pipeEnd c = False \<and> recognize_handles s' w = {pipeTarget c})"
proof -
  have c: "consistent w s"
    using consistent_run [OF consistent_init assms(1)] .
  have live: "live_recognize w (trace s) = recognize_handles s w"
    using c by (simp add: consistent_def)
  have present: "(clientStreams s w \<noteq> None) = (live_recognize w (trace s) \<noteq> {})"
    using c by (auto simp: consistent_def recognize_handles_def split: option.splits)
  have some: "recognizeStream x \<noteq> None" if "clientStreams s w = Some x" for x
    using c that by (simp add: consistent_def)
  show ?thesis
  proof (cases "event_ws e = w")
    case True
    note obs = step_same_observed [OF c assms(2) True]
    from obs(2) some have "destroyed w (emitted s s')
        = (case clientStreams s w of
             None \<Rightarrow> []
           | Some c \<Rightarrow>
               if clientStreams s' w = None
               then (case recognizeStream c of None \<Rightarrow> [] | Some h \<Rightarrow> [h])
               else [])"
      by (auto split: option.splits)
    with live present obs(1,3,4) show ?thesis by blast
  next
    case False
    note obs = step_other [OF assms(2) False]
    have "destroyed w (emitted s s')
        = (case clientStreams s w of
             None \<Rightarrow> []
           | Some c \<Rightarrow>
               if clientStreams s' w = None
               then (case recognizeStream c of None \<Rightarrow> [] | Some h \<Rightarrow> [h])
               else [])"
      by (simp add: obs(2,4) split: option.splits)
    with live present obs(1,3,5) show ?thesis by simp
  qed
qed

theorem C6_recognition_handle_lifetime_witness:
  "opened 0 (emitted init (projr (step Buffer_from_sample (Message 0 chunk_message) init))) = [0]
   \<and> recognize_handles (projr (step Buffer_from_sample (Message 0 chunk_message) init)) 0 = {0}
   \<and> destroyed 0 (emitted init (projr (step Buffer_from_sample (Message 0 chunk_message) init))) = []
   \<and> live_recognize 0 (trace init) = {}"
proof -
  let ?s' = "projr (step Buffer_from_sample (Message 0 chunk_message) init)"
  have r: "run Buffer_from_sample [] init = Inr init" by simp
  have st: "step Buffer_from_sample (Message 0 chunk_message) init = Inr ?s'"
    by (simp add: chunk_message_def on_message_def)
  have ch: "is_chunk_for 0 (Message 0 chunk_message)"
    by (simp add: chunk_message_def is_audio_chunk_def)
  from C6_recognition_handle_lifetime [OF r st, of 0] ch
  show ?thesis by (simp add: recognize_handles_def)
qed

subsection \<open>After teardown\<close>

text \<open>
  C2, as the claim states it, fails. A chunk opens recognition stream 0 and spawns
  command 1; a failure of the recognition stream tears the session down (the entry is
  gone); the next chunk of the same connection finds no entry and starts over: it
  opens recognition stream 2, registers a new entry and spawns command 3.
\<close>

theorem C2_closed_session_reopens:
  "clientStreams
     (projr (run Buffer_from_sample [Message 0 chunk_message, RecognizeError 0 ''lost''] init)) 0
     = None
   \<and> \<not> isl (run Buffer_from_sample
        [Message 0 chunk_message, RecognizeError 0 ''lost'', Message 0 chunk_message] init)
   \<and> clientStreams
       (projr (run Buffer_from_sample
          [Message 0 chunk_message, RecognizeError 0 ''lost'', Message 0 chunk_message] init)) 0
     = Some \<lparr>recognizeStream = Some 2, ffmpegProcess = Some 3\<rparr>
   \<and> drop 15 (trace
       (projr (run Buffer_from_sample
          [Message 0 chunk_message, RecognizeError 0 ''lost'', Message 0 chunk_message] init)))
     = [Log 0 NoStreamFound, Log 0 StartingRecognizeStream, OpenRecognize 0 2, RegistrySet 0,
        Log 0 (ReceivedAudioChunk 3), Log 0 (FirstBytes [0, 0, 0]), Log 0 AttemptingRawPcm,
        SpawnFfmpeg 0 3 (ffmpegCommand_of [0, 0, 0] 2)]"
  by (simp add: chunk_message_def Buffer_from_sample_def on_message_def audio_chunk_def
      startRecognitionStream_def stopRecognitionStream_def on_recognize_error_def Let_def
      ffmpegCommand_of_def)

lemma closed_step_same:
  assumes "clientStreams s w = None" and "step B e s = Inr s'" and "event_ws e = w"
  shows "\<not> is_chunk_for w e \<longrightarrow> clientStreams s' w = None \<and> opened w (emitted s s') = [] \<and> spawned w (emitted s s') = []"
    "is_chunk_for w e \<longrightarrow> clientStreams s' w \<noteq> None \<and> opened w (emitted s s') = [nextHandle s]"
  using assms
  by (cases e;
      auto simp: on_message_def is_audio_chunk_def audio_chunk_def startRecognitionStream_def
        on_close_def on_error_def on_recognize_error_def
        on_recognize_data_def on_recognize_end_def on_ffmpeg_start_def on_ffmpeg_error_def
        on_ffmpeg_end_def Let_def stopRecognitionStream_def observe_defs
      split: list.splits option.splits if_splits)+

lemma closed_step:
  assumes "clientStreams s w = None" and "step B e s = Inr s'"
  shows "(\<not> is_chunk_for w e
            \<longrightarrow> clientStreams s' w = None \<and> opened w (emitted s s') = []
                \<and> spawned w (emitted s s') = [])
       \<and> (is_chunk_for w e
            \<longrightarrow> clientStreams s' w \<noteq> None \<and> opened w (emitted s s') = [nextHandle s])"
proof (cases "event_ws e = w")
  case True
  from closed_step_same [OF assms True] show ?thesis by blast
next
  case False
  from step_other [OF assms(2) False] assms(1) show ?thesis by simp
qed

lemma closed_step_spawn:
  assumes "clientStreams s w = None" and "step B (Message w (Some v)) s = Inr s'"
    and "is_audio_chunk (Some v)" and "B (the (member v ''data'')) = Some bytes"
  shows "spawned w (emitted s s')
           = [(Suc (nextHandle s), ffmpegCommand_of bytes (nextHandle s))]"
  using assms
  by (auto simp: is_audio_chunk_def on_message_def audio_chunk_def startRecognitionStream_def
      Let_def observe_defs)

text \<open>
  C2, amended. While a connection has no entry in the registry, every event other
  than an audio chunk of that connection (a message with \<^verbatim>\<open>type\<close> \<^verbatim>\<open>audio_chunk\<close> and a
  truthy \<^verbatim>\<open>data\<close>) leaves it without entry, opens no recognition stream for it and
  spawns no ffmpeg command for it; an audio chunk of that connection starts a
  session again: it opens exactly one new recognition stream and registers an entry,
  and, when its payload decodes, it spawns one ffmpeg command piped into the new
  stream.
\<close>

theorem C2_closed_until_next_chunk:
  assumes "clientStreams s w = None" and "step B e s = Inr s'"
  shows "(\<not> is_chunk_for w e
            \<longrightarrow> clientStreams s' w = None \<and> opened w (emitted s s') = []
                \<and> spawned w (emitted s s') = [])
       \<and> (is_chunk_for w e
            \<longrightarrow> clientStreams s' w \<noteq> None \<and> opened w (emitted s s') = [nextHandle s])
       \<and> (\<forall>v bytes. e = Message w (Some v) \<and> is_audio_chunk (Some v)
              \<and> B (the (member v ''data'')) = Some bytes
            \<longrightarrow> spawned w (emitted s s')
                  = [(Suc (nextHandle s), ffmpegCommand_of bytes (nextHandle s))])"
proof -
  note two = closed_step [OF assms]
  have three: "spawned w (emitted s s')
                  = [(Suc (nextHandle s), ffmpegCommand_of bytes (nextHandle s))]"
    if "e = Message w (Some v) \<and> is_audio_chunk (Some v)
          \<and> B (the (member v ''data'')) = Some bytes" for v bytes
    using closed_step_spawn [OF assms(1), of B v s' bytes] assms(2) that by simp
  from two three show ?thesis by blast
qed

theorem C2_closed_until_next_chunk_witness:
  "clientStreams
     (projr (run Buffer_from_sample [Message 0 chunk_message, RecognizeError 0 ''lost''] init)) 0
     = None
   \<and> clientStreams
       (projr (step Buffer_from_sample (Message 0 end_audio_message)
          (projr (run Buffer_from_sample
             [Message 0 chunk_message, RecognizeError 0 ''lost''] init)))) 0 = None
   \<and> opened 0
       (emitted
          (projr (run Buffer_from_sample [Message 0 chunk_message, RecognizeError 0 ''lost''] init))
          (projr (step Buffer_from_sample (Message 0 chunk_message)
             (projr (run Buffer_from_sample
                [Message 0 chunk_message, RecognizeError 0 ''lost''] init))))) = [2]
   \<and> spawned 0
       (emitted
          (projr (run Buffer_from_sample [Message 0 chunk_message, RecognizeError 0 ''lost''] init))
          (projr (step Buffer_from_sample (Message 0 chunk_message)
             (projr (run Buffer_from_sample
                [Message 0 chunk_message, RecognizeError 0 ''lost''] init)))))
     = [(Suc 2, ffmpegCommand_of [0, 0, 0] 2)]"
proof -
  let ?s = "projr (run Buffer_from_sample [Message 0 chunk_message, RecognizeError 0 ''lost''] init)"
  let ?s' = "projr (step Buffer_from_sample (Message 0 end_audio_message) ?s)"
  let ?s'' = "projr (step Buffer_from_sample (Message 0 chunk_message) ?s)"
  let ?v = "JObject [(''type'', JString ''audio_chunk''), (''data'', JString ''AAAA'')]"
  have h: "clientStreams ?s 0 = None" and n2: "nextHandle ?s = 2"
    by (simp_all add: chunk_message_def Buffer_from_sample_def on_message_def audio_chunk_def
        startRecognitionStream_def stopRecognitionStream_def on_recognize_error_def Let_def)
  have st: "step Buffer_from_sample (Message 0 end_audio_message) ?s = Inr ?s'"
    by (simp add: end_audio_message_def on_message_def)
  have st': "step Buffer_from_sample (Message 0 chunk_message) ?s = Inr ?s''"
    by (simp add: chunk_message_def on_message_def)
  have n: "\<not> is_chunk_for 0 (Message 0 end_audio_message)"
    by (simp add: end_audio_message_def is_audio_chunk_def)
  have y: "is_chunk_for 0 (Message 0 chunk_message)"
    by (simp add: chunk_message_def is_audio_chunk_def)
  have d: "Message 0 chunk_message = Message 0 (Some ?v) \<and> is_audio_chunk (Some ?v)
      \<and> Buffer_from_sample (the (member ?v ''data'')) = Some [0, 0, 0]"
    by (simp add: chunk_message_def is_audio_chunk_def Buffer_from_sample_def)
  note A = C2_closed_until_next_chunk [OF h st]
  note B = C2_closed_until_next_chunk [OF h st']
  from A n have a: "clientStreams ?s' 0 = None" by blast
  from B y have b: "opened 0 (emitted ?s ?s'') = [nextHandle ?s]" by blast
  from B d have c: "spawned 0 (emitted ?s ?s'')
      = [(Suc (nextHandle ?s), ffmpegCommand_of [0, 0, 0] (nextHandle ?s))]" by blast
  from b have b': "opened 0 (emitted ?s ?s'') = [2]" unfolding n2 .
  from c have c': "spawned 0 (emitted ?s ?s'') = [(Suc 2, ffmpegCommand_of [0, 0, 0] 2)]"
    unfolding n2 .
  from h a b' c' show ?thesis by blast
qed

subsection \<open>The registry and the connection\<close>

text \<open>
  C3, as the claim states it, fails. A client connects and sends \<^verbatim>\<open>end_audio\<close>: its
  socket is open and the registry has no entry for it. (The entry is made by the
  first audio chunk, line 146, and not on connection, line 307.)
\<close>

theorem C3_open_connection_without_session:
  "\<not> isl (run Buffer_from_sample [Message 0 end_audio_message] init)
   \<and> readyState (projr (run Buffer_from_sample [Message 0 end_audio_message] init)) 0 = OPEN
   \<and> clientStreams (projr (run Buffer_from_sample [Message 0 end_audio_message] init)) 0 = None"
  by (simp add: end_audio_message_def on_message_def)

lemma run_append:
  "run B (xs @ ys) s = (case run B xs s of Inl x \<Rightarrow> Inl x | Inr s1 \<Rightarrow> run B ys s1)"
  by (induction xs arbitrary: s) (auto split: sum.splits)

lemma close_step:
  "step B (Close w) s = Inr s' \<Longrightarrow> clientStreams s' w = None \<and> readyState s' w = CLOSED"
  by (auto simp: on_close_def stopRecognitionStream_def Let_def split: option.splits)

lemma readyState_stop [simp]: "readyState (stopRecognitionStream w s) = readyState s"
  by (simp add: stopRecognitionStream_def Let_def split: option.splits)

lemma readyState_on_message: "on_message B w p s = Inr s' \<Longrightarrow> readyState s' = readyState s"
  by (drule extends_on_message) (simp add: extends_def)

lemma readyState_step:
  "step B e s = Inr s' \<Longrightarrow> readyState s' w = CLOSED \<Longrightarrow> readyState s w = CLOSED \<or> e = Close w"
  by (cases e)
    (auto simp: on_close_def on_error_def on_recognize_error_def on_recognize_data_def
      on_recognize_end_def on_ffmpeg_start_def on_ffmpeg_error_def on_ffmpeg_end_def Let_def
      split: list.splits if_splits dest: readyState_on_message)

lemma no_entry_step:
  assumes "step B e s = Inr s'" and "clientStreams s w = None" and "\<not> is_message_for w e"
  shows "clientStreams s' w = None"
proof -
  from assms(3) have "\<not> is_chunk_for w e" by (cases e) auto
  with closed_step [OF assms(2,1)] show ?thesis by simp
qed

lemma no_entry_run:
  "run B evs s = Inr s' \<Longrightarrow> clientStreams s w = None \<Longrightarrow> \<not> list_ex (is_message_for w) evs
    \<Longrightarrow> clientStreams s' w = None"
  by (induction evs arbitrary: s) (auto split: sum.splits dest: no_entry_step)

lemma closed_has_no_entry:
  "run B evs s = Inr s' \<Longrightarrow> no_message_after_close w evs
    \<Longrightarrow> (readyState s w = CLOSED \<longrightarrow> clientStreams s w = None \<and> \<not> list_ex (is_message_for w) evs)
    \<Longrightarrow> readyState s' w = CLOSED \<Longrightarrow> clientStreams s' w = None"
proof (induction evs arbitrary: s)
  case Nil
  then show ?case by simp
next
  case (Cons e es)
  from Cons.prems(1) obtain s1 where s1: "step B e s = Inr s1" "run B es s1 = Inr s'"
    by (auto split: sum.splits)
  have "readyState s1 w = CLOSED \<longrightarrow> clientStreams s1 w = None \<and> \<not> list_ex (is_message_for w) es"
  proof
    assume cl: "readyState s1 w = CLOSED"
    from readyState_step [OF s1(1) cl] show "clientStreams s1 w = None \<and> \<not> list_ex (is_message_for w) es"
    proof
      assume "readyState s w = CLOSED"
      with Cons.prems(3) have "clientStreams s w = None" "\<not> is_message_for w e"
        "\<not> list_ex (is_message_for w) es" by auto
      with no_entry_step [OF s1(1)] show ?thesis by simp
    next
      assume e: "e = Close w"
      with close_step [of B w s s1] s1(1) Cons.prems(2) show ?thesis by simp
    qed
  qed
  with Cons.IH [OF s1(2)] Cons.prems(2,4) show ?case by simp
qed

text \<open>
  C3, amended. In every state that the server reaches: a connection without entry
  has no live ffmpeg command and no live recognition stream; right after the
  \<^verbatim>\<open>close\<close> event of a connection its entry is gone; and, in the executions where no
  message of a connection is delivered after its \<^verbatim>\<open>close\<close> event, a connection that has
  an entry has not been closed. The converse does not hold: an open connection has
  an entry only between its first audio chunk and the next teardown.
\<close>

theorem C3_registry_consistency:
  assumes "run B evs init = Inr s"
  shows "(clientStreams s w = None
            \<longrightarrow> live_ffmpeg w (trace s) = {} \<and> live_recognize w (trace s) = {})
       \<and> (evs \<noteq> [] \<and> last evs = Close w
            \<longrightarrow> clientStreams s w = None \<and> readyState s w = CLOSED)
       \<and> (no_message_after_close w evs \<and> clientStreams s w \<noteq> None
            \<longrightarrow> readyState s w \<noteq> CLOSED)"
proof -
  have c: "consistent w s"
    using consistent_run [OF consistent_init assms] .
  then have first: "clientStreams s w = None
            \<longrightarrow> live_ffmpeg w (trace s) = {} \<and> live_recognize w (trace s) = {}"
    by (auto simp: consistent_def ffmpeg_handles_def recognize_handles_def)
  have second: "clientStreams s w = None \<and> readyState s w = CLOSED"
    if "evs \<noteq> [] \<and> last evs = Close w"
  proof -
    from that have "evs = butlast evs @ [Close w]"
      by (metis append_butlast_last_id)
    with assms have "run B (butlast evs @ [Close w]) init = Inr s" by simp
    then obtain s1 where "step B (Close w) s1 = Inr s"
      unfolding run_append by (auto split: sum.splits)
    then show ?thesis by (rule close_step)
  qed
  have third: "readyState s w \<noteq> CLOSED"
    if "no_message_after_close w evs \<and> clientStreams s w \<noteq> None"
    using closed_has_no_entry [OF assms, of w] that by auto
  from first second third show ?thesis by blast
qed

theorem C3_registry_consistency_witness:
  "clientStreams (projr (run Buffer_from_sample [Message 0 chunk_message, Close 0] init)) 0 = None
   \<and> live_ffmpeg 0 (trace (projr (run Buffer_from_sample [Message 0 chunk_message, Close 0] init))) = {}
   \<and> live_recognize 0 (trace (projr (run Buffer_from_sample [Message 0 chunk_message, Close 0] init))) = {}
   \<and> readyState (projr (run Buffer_from_sample [Message 0 chunk_message, Close 0] init)) 0 = CLOSED
   \<and> clientStreams (projr (run Buffer_from_sample [Message 0 chunk_message] init)) 0 \<noteq> None
   \<and> readyState (projr (run Buffer_from_sample [Message 0 chunk_message] init)) 0 \<noteq> CLOSED"
proof -
  let ?a = "projr (run Buffer_from_sample [Message 0 chunk_message, Close 0] init)"
  let ?b = "projr (run Buffer_from_sample [Message 0 chunk_message] init)"
  have ra: "run Buffer_from_sample [Message 0 chunk_message, Close 0] init = Inr ?a"
    by (simp add: chunk_message_def on_message_def)
  have rb: "run Buffer_from_sample [Message 0 chunk_message] init = Inr ?b"
    by (simp add: chunk_message_def on_message_def)
  have la: "[Message 0 chunk_message, Close 0] \<noteq> [] \<and> last [Message 0 chunk_message, Close 0] = Close 0"
    by simp
  have nb: "no_message_after_close 0 [Message 0 chunk_message]
      \<and> clientStreams ?b 0 \<noteq> None"
    by (simp add: chunk_message_def Buffer_from_sample_def on_message_def audio_chunk_def
        startRecognitionStream_def Let_def)
  note A = C3_registry_consistency [OF ra, of 0]
  note B = C3_registry_consistency [OF rb, of 0]
  from A have "[Message 0 chunk_message, Close 0] \<noteq> [] \<and> last [Message 0 chunk_message, Close 0] = Close 0
      \<longrightarrow> clientStreams ?a 0 = None \<and> readyState ?a 0 = CLOSED"
    by (rule conjunct2 [THEN conjunct1])
  from this la have a2: "clientStreams ?a 0 = None \<and> readyState ?a 0 = CLOSED"
    by (rule mp)
  from A have "clientStreams ?a 0 = None
      \<longrightarrow> live_ffmpeg 0 (trace ?a) = {} \<and> live_recognize 0 (trace ?a) = {}"
    by (rule conjunct1)
  from this a2 [THEN conjunct1] have a1: "live_ffmpeg 0 (trace ?a) = {} \<and> live_recognize 0 (trace ?a) = {}"
    by (rule mp)
  from B have "no_message_after_close 0 [Message 0 chunk_message] \<and> clientStreams ?b 0 \<noteq> None
      \<longrightarrow> readyState ?b 0 \<noteq> CLOSED"
    by (rule conjunct2 [THEN conjunct2])
  from this nb have b3: "readyState ?b 0 \<noteq> CLOSED"
    by (rule mp)
  from a1 a2 b3 nb show ?thesis by blast
qed

subsection \<open>The transcoding invocation\<close>




subsection \<open>Relay of the transcripts\<close>

lemma transcripts_sent_append:
  "transcripts_sent w (X @ Y) = transcripts_sent w X @ transcripts_sent w Y"
  by (simp add: transcripts_sent_def map_filter_def)

lemma transcripts_sent_simps [simp]:
  "transcripts_sent w [] = []"
  "transcripts_sent w (e # X) = (case transcript_to w e of None \<Rightarrow> [] | Some m \<Rightarrow> [m]) @ transcripts_sent w X"
  by (simp_all add: transcripts_sent_def map_filter_simps split: option.splits)

lemma transcript_to_other: "effect_ws x \<noteq> w \<Longrightarrow> transcript_to w x = None"
  by (cases "(w, x)" rule: transcript_to.cases) auto

lemma transcripts_sent_other:
  "\<forall>x\<in>set X. effect_ws x \<noteq> w \<Longrightarrow> transcripts_sent w X = []"
  by (induction X) (simp_all add: transcript_to_other)

lemma step_extends_trace: "step B e s = Inr s' \<Longrightarrow> \<exists>X. trace s' = trace s @ X"
  using extends_step [of B e s s'] by (auto simp: extends_def)

lemma run_extends_trace: "run B evs s = Inr s' \<Longrightarrow> \<exists>X. trace s' = trace s @ X"
proof (induction evs arbitrary: s)
  case Nil
  then show ?case by simp
next
  case (Cons e es)
  from Cons.prems obtain s1 where s1: "step B e s = Inr s1" "run B es s1 = Inr s'"
    by (auto split: sum.splits)
  from step_extends_trace [OF s1(1)] Cons.IH [OF s1(2)] show ?case
    by auto
qed

lemma emitted_trans:
  assumes "\<exists>X. trace s1 = trace s @ X" and "\<exists>Y. trace s2 = trace s1 @ Y"
  shows "emitted s s2 = emitted s s1 @ emitted s1 s2"
  using assms by (auto simp: emitted_def)

lemma on_message_silent:
  "on_message B w p s = Inr s' \<Longrightarrow> transcripts_sent w' (emitted s s') = []"
  by (auto simp: on_message_def audio_chunk_def startRecognitionStream_def Let_def emitted_def
      split: option.splits if_splits)

lemma stop_silent:
  "trace s0 = trace s @ X \<Longrightarrow>
   transcripts_sent w' (emitted s (stopRecognitionStream w s0)) = transcripts_sent w' X"
  by (auto simp: stopRecognitionStream_def Let_def emitted_def transcripts_sent_append
      split: option.splits)

lemma result_of_other: "event_ws e \<noteq> w \<Longrightarrow> result_of w e = None"
  by (cases e) auto

lemma readyState_other:
  "step B e s = Inr s' \<Longrightarrow> event_ws e \<noteq> w \<Longrightarrow> readyState s' w = readyState s w"
  by (cases e)
    (auto simp: on_close_def on_error_def on_recognize_error_def on_recognize_data_def
      on_recognize_end_def on_ffmpeg_start_def on_ffmpeg_error_def on_ffmpeg_end_def Let_def
      split: list.splits if_splits dest: readyState_on_message)

lemma step_open_same:
  assumes "step B e s = Inr s'" and "readyState s w = OPEN" and "stays_open w e"
    and "event_ws e = w"
  shows "transcripts_sent w (emitted s s') = (case result_of w e of None \<Rightarrow> [] | Some m \<Rightarrow> [m])
    \<and> readyState s' w = OPEN"
proof (cases e)
  case (Message w' p)
  with assms show ?thesis
    by (auto dest: on_message_silent readyState_on_message)
next
  case (Close w')
  with assms show ?thesis by (simp add: stays_open_def)
next
  case (Closing w')
  with assms show ?thesis by (simp add: stays_open_def)
next
  case (SocketError w')
  with assms show ?thesis
    by (auto simp: on_error_def stop_silent [where X = "[Log w WebSocketError]"])
next
  case (RecognizeError w' m)
  with assms show ?thesis
    by (auto simp: on_recognize_error_def Let_def emitted_def stopRecognitionStream_def
        split: option.splits)
next
  case (RecognizeData w' d)
  with assms show ?thesis
    by (auto simp: on_recognize_data_def emitted_def top_transcript_def split: list.splits)
next
  case (RecognizeEnd w')
  with assms show ?thesis by (auto simp: on_recognize_end_def emitted_def)
next
  case (FfmpegStart w' c)
  with assms show ?thesis by (auto simp: on_ffmpeg_start_def emitted_def)
next
  case (FfmpegError w' m e')
  with assms show ?thesis by (auto simp: on_ffmpeg_error_def emitted_def)
next
  case (FfmpegEnd w')
  with assms show ?thesis by (auto simp: on_ffmpeg_end_def emitted_def)
qed

lemma step_other_silent:
  assumes "step B e s = Inr s'" and "event_ws e \<noteq> w"
  shows "transcripts_sent w (emitted s s') = []"
proof -
  from extends_step [OF assms(1)] assms(2)
  obtain X where X: "trace s' = trace s @ X" "\<forall>x\<in>set X. effect_ws x \<noteq> w"
    unfolding extends_def by auto
  from X(1) have "emitted s s' = X" by (rule emitted_trace)
  with transcripts_sent_other [OF X(2)] show ?thesis by simp
qed

lemma step_open:
  assumes "step B e s = Inr s'" and "readyState s w = OPEN" and "stays_open w e"
  shows "transcripts_sent w (emitted s s') = (case result_of w e of None \<Rightarrow> [] | Some m \<Rightarrow> [m])
    \<and> readyState s' w = OPEN"
proof (cases "event_ws e = w")
  case True
  with assms show ?thesis by (rule step_open_same)
next
  case False
  with assms(2) step_other_silent [OF assms(1) False] readyState_other [OF assms(1) False]
  show ?thesis by (simp add: result_of_other)
qed

lemma step_shut:
  assumes "step B e s = Inr s'" and "readyState s w \<noteq> OPEN \<or> \<not> stays_open w e"
  shows "transcripts_sent w (emitted s s') = [] \<and> readyState s' w \<noteq> OPEN"
proof (cases "event_ws e = w")
  case False
  with assms(2) have "readyState s w \<noteq> OPEN" by (cases e) (auto simp: stays_open_def)
  with step_other_silent [OF assms(1) False] readyState_other [OF assms(1) False]
  show ?thesis by simp
next
  case True
  show ?thesis
  proof (cases e)
    case (Message w' p)
    with assms True show ?thesis
      by (auto simp: stays_open_def dest: on_message_silent readyState_on_message)
  next
    case (Close w')
    with assms True show ?thesis
      by (auto simp: on_close_def stop_silent [where X = "[Log w ConnectionClosed]"])
  next
    case (Closing w')
    with assms True show ?thesis by (auto simp: emitted_def split: if_splits)
  next
    case (SocketError w')
    with assms True show ?thesis
      by (auto simp: stays_open_def on_error_def stop_silent [where X = "[Log w WebSocketError]"])
  next
    case (RecognizeError w' m)
    with assms True show ?thesis
      by (auto simp: stays_open_def on_recognize_error_def Let_def
          stop_silent [where X = "[Log w (SpeechApiError m)]"])
  next
    case (RecognizeData w' d)
    with assms True show ?thesis
      by (auto simp: stays_open_def on_recognize_data_def emitted_def
          stop_silent [where X = "[Log w CannotSendTranscription]", unfolded emitted_def]
          split: list.splits)
  next
    case (RecognizeEnd w')
    with assms True show ?thesis by (auto simp: stays_open_def on_recognize_end_def emitted_def)
  next
    case (FfmpegStart w' c)
    with assms True show ?thesis by (auto simp: stays_open_def on_ffmpeg_start_def emitted_def)
  next
    case (FfmpegError w' m e')
    with assms True show ?thesis by (auto simp: stays_open_def on_ffmpeg_error_def emitted_def)
  next
    case (FfmpegEnd w')
    with assms True show ?thesis by (auto simp: stays_open_def on_ffmpeg_end_def emitted_def)
  qed
qed

lemma run_shut:
  "run B evs s = Inr s' \<Longrightarrow> readyState s w \<noteq> OPEN \<Longrightarrow> transcripts_sent w (emitted s s') = []"
proof (induction evs arbitrary: s)
  case Nil
  then show ?case by (simp add: emitted_def)
next
  case (Cons e es)
  from Cons.prems(1) obtain s1 where s1: "step B e s = Inr s1" "run B es s1 = Inr s'"
    by (auto split: sum.splits)
  from step_shut [OF s1(1), of w] Cons.prems(2)
  have a: "transcripts_sent w (emitted s s1) = []" "readyState s1 w \<noteq> OPEN" by auto
  from Cons.IH [OF s1(2) a(2)] have b: "transcripts_sent w (emitted s1 s') = []" .
  from emitted_trans [OF step_extends_trace [OF s1(1)] run_extends_trace [OF s1(2)]] a(1) b
  show ?case by (simp add: transcripts_sent_append)
qed

lemma run_relays:
  "run B evs s = Inr s' \<Longrightarrow> readyState s w = OPEN \<Longrightarrow>
   transcripts_sent w (emitted s s') = List.map_filter (result_of w) (takeWhile (stays_open w) evs)"
proof (induction evs arbitrary: s)
  case Nil
  then show ?case by (simp add: emitted_def map_filter_simps)
next
  case (Cons e es)
  from Cons.prems(1) obtain s1 where s1: "step B e s = Inr s1" "run B es s1 = Inr s'"
    by (auto split: sum.splits)
  note split = emitted_trans [OF step_extends_trace [OF s1(1)] run_extends_trace [OF s1(2)]]
  show ?case
  proof (cases "stays_open w e")
    case True
    from step_open [OF s1(1) Cons.prems(2) True]
    have a: "transcripts_sent w (emitted s s1) = (case result_of w e of None \<Rightarrow> [] | Some m \<Rightarrow> [m])"
      "readyState s1 w = OPEN" by auto
    from Cons.IH [OF s1(2) a(2)] a(1) split True show ?thesis
      by (simp add: transcripts_sent_append map_filter_simps split: option.splits)
  next
    case False
    from step_shut [OF s1(1), of w] False
    have a: "transcripts_sent w (emitted s s1) = []" "readyState s1 w \<noteq> OPEN" by auto
    from run_shut [OF s1(2) a(2)] a(1) split False show ?thesis
      by (simp add: transcripts_sent_append map_filter_simps)
  qed
qed

text \<open>
  C8. The transcript envelopes sent to a client during an execution that starts with
  its socket open are the envelopes of the result events of its recognition stream
  that arrive before the socket leaves the open state, one for each result that has a
  first alternative, in the order of the events: nothing is reordered, repeated or
  held back.
\<close>

theorem C8_transcripts_in_emission_order:
  assumes "run B evs s = Inr s'" and "readyState s w = OPEN"
  shows "transcripts_sent w (emitted s s')
           = List.map_filter (result_of w) (takeWhile (stays_open w) evs)"
  using assms by (rule run_relays)

theorem C8_transcripts_in_emission_order_witness:
  "transcripts_sent 0
     (emitted init (projr (run Buffer_from_sample
        [Message 0 chunk_message, RecognizeData 0 result_hel,
         Message 0 chunk_message, RecognizeData 0 result_hello_world] init)))
   = [Transcript ''hel'' False, Transcript ''hello world'' True]"
proof -
  let ?evs = "[Message 0 chunk_message, RecognizeData 0 result_hel,
         Message 0 chunk_message, RecognizeData 0 result_hello_world]"
  have r: "run Buffer_from_sample ?evs init = Inr (projr (run Buffer_from_sample ?evs init))"
    by (simp add: chunk_message_def on_message_def)
  have o: "readyState init 0 = OPEN" by simp
  from C8_transcripts_in_emission_order [OF r o]
  show ?thesis
    by (simp add: stays_open_def map_filter_simps top_transcript_def result_hel_def
        result_hello_world_def)
qed

end
